theory Spec2Isabelle
  imports Main "HOL-Library.Word" "HOL-Library.AList"
begin

section \<open>The pooled GPU storage manager of \<^verbatim>\<open>src/storage/pooled_storage_manager.h\<close>\<close>

text \<open>
  The class \<^verbatim>\<open>GPUPooledStorageManager\<close> caches device buffers by size. Its fields
  become the record \<open>manager\<close>; the HIP runtime it calls (\<^verbatim>\<open>hipFree\<close>,
  \<^verbatim>\<open>hipMemGetInfo\<close>, \<^verbatim>\<open>hipMalloc\<close>) is not part of the repository and is a
  parameter of every operation: a record of three functions over a device state of any
  type. Every call into the runtime is appended to a log, so that the order and number
  of runtime calls can be stated.
\<close>

subsection \<open>Data\<close>

text \<open>\<^verbatim>\<open>size_t\<close> is a 64-bit unsigned integer (arithmetic wraps), \<^verbatim>\<open>void*\<close> a 64-bit
  address, \<^verbatim>\<open>int\<close> a 32-bit signed integer.\<close>

type_synonym size_t = "64 word"
type_synonym ptr = "64 word"
type_synonym c_int = "32 word"

datatype hipError_t = hipSuccess | hipErrorCode nat

text \<open>The runtime: each function takes the device state and returns its answer with the
  new device state. \<^verbatim>\<open>hipMemGetInfo\<close> answers \<open>(free, total)\<close>; the source ignores
  its status. \<^verbatim>\<open>hipMalloc\<close> answers the status and the pointer it stored.\<close>

record 'd runtime =
  hipFree :: "ptr \<Rightarrow> 'd \<Rightarrow> hipError_t \<times> 'd"
  hipMemGetInfo :: "'d \<Rightarrow> (size_t \<times> size_t) \<times> 'd"
  hipMalloc :: "size_t \<Rightarrow> 'd \<Rightarrow> (hipError_t \<times> ptr) \<times> 'd"

datatype dev_call = CallFree ptr | CallMemGetInfo | CallMalloc size_t

record 'd world =
  device :: 'd
  calls :: "dev_call list"

text \<open>The fields of the class. \<^verbatim>\<open>memory_pool_\<close> is an
  \<^verbatim>\<open>unordered_map<size_t, std::vector<void*>>\<close>: an association list, read with
  \<open>map_of\<close> and written with \<open>AList.update\<close>, each vector a list whose last element is
  \<^verbatim>\<open>back()\<close>. The iteration order of an unordered map is unspecified; it is the order
  of the list, and the theorems below hold for every list. (The source's field names end
  in an underscore, which Isabelle keeps for internal names.)\<close>

record manager =
  used_memory :: size_t
  reserve :: c_int
  memory_pool :: "(size_t \<times> ptr list) list"

type_synonym 'd state = "manager \<times> 'd world"

text \<open>Local variables keep the source's names, except that \<open>size\<close> and \<open>total\<close> are
  constants of HOL: they are \<open>sz\<close> and \<open>total'\<close>.

  \<^verbatim>\<open>const int NDEV = 32\<close>, converted to \<^verbatim>\<open>size_t\<close> where it is added to a size.\<close>

definition NDEV :: size_t where
  "NDEV = 32"

text \<open>The bucket key \<^verbatim>\<open>size_t size = raw_size + NDEV\<close> that \<^verbatim>\<open>Alloc\<close>, \<^verbatim>\<open>Free\<close>
  and \<^verbatim>\<open>DirectFree\<close> each compute first.\<close>

definition bucket_key :: "size_t \<Rightarrow> size_t" where
  "bucket_key raw_size = raw_size + NDEV"

subsection \<open>Construction\<close>

text \<open>Modelled from the spec: \<^verbatim>\<open>dmlc::GetEnv\<close> is not under src/. The spec says the
  constructor "takes a reserve-percentage configuration value (default if unset)"; the
  parsed value of the environment variable, if it is set, is the argument.\<close>

definition GetEnv :: "'a option \<Rightarrow> 'a \<Rightarrow> 'a" where
  "GetEnv env default_val = (case env of None \<Rightarrow> default_val | Some v \<Rightarrow> v)"

text \<open>The constructor, with the member initialiser \<^verbatim>\<open>used_memory_ = 0\<close> and the empty map.
  Its body is the one assignment of what \<^verbatim>\<open>GetEnv\<close> returns; it has no range check.\<close>

definition GPUPooledStorageManager :: "c_int option \<Rightarrow> manager" where
  "GPUPooledStorageManager env =
     \<lparr>used_memory = 0, reserve = GetEnv env 5, memory_pool = []\<rparr>"

subsection \<open>DirectFree\<close>

definition DirectFree :: "'d runtime \<Rightarrow> ptr \<Rightarrow> size_t \<Rightarrow> 'd state \<Rightarrow> 'd state" where
  "DirectFree rt p raw_size s =
     (case s of (m, w) \<Rightarrow>
        (case hipFree rt p (device w) of (err, d') \<Rightarrow>
           let w' = \<lparr>device = d', calls = calls w @ [CallFree p]\<rparr>;
               sz = bucket_key raw_size;
               m' = (if err \<noteq> hipSuccess then m else m)
           in (m'\<lparr>used_memory := used_memory m' - sz\<rparr>, w')))"

subsection \<open>ReleaseAll\<close>

text \<open>The inner loop over one vector, front to back, and the outer loop over the map.
  \<^verbatim>\<open>DirectFree\<close> does not touch the map, so both loops run over the map as it was.\<close>

fun release_bucket :: "'d runtime \<Rightarrow> size_t \<Rightarrow> ptr list \<Rightarrow> 'd state \<Rightarrow> 'd state" where
  "release_bucket rt k [] s = s"
| "release_bucket rt k (j # js) s = release_bucket rt k js (DirectFree rt j (k - NDEV) s)"

fun release_buckets :: "'d runtime \<Rightarrow> (size_t \<times> ptr list) list \<Rightarrow> 'd state \<Rightarrow> 'd state" where
  "release_buckets rt [] s = s"
| "release_buckets rt (i # rest) s = release_buckets rt rest (release_bucket rt (fst i) (snd i) s)"

definition ReleaseAll :: "'d runtime \<Rightarrow> 'd state \<Rightarrow> 'd state" where
  "ReleaseAll rt s =
     (case release_buckets rt (memory_pool (fst s)) s of
        (m, w) \<Rightarrow> (m\<lparr>memory_pool := []\<rparr>, w))"

subsection \<open>Alloc\<close>

text \<open>The threshold \<^verbatim>\<open>total * reserve_ / 100\<close>: \<^verbatim>\<open>reserve_\<close> is converted from
  \<^verbatim>\<open>int\<close> to \<^verbatim>\<open>size_t\<close> (sign extension), the product wraps, the division is
  unsigned.\<close>

definition reserve_threshold :: "size_t \<Rightarrow> c_int \<Rightarrow> size_t" where
  "reserve_threshold total' r = (total' * scast r) div 100"

text \<open>The condition
  \<^verbatim>\<open>free <= total * reserve_ / 100 || size > free - total * reserve_ / 100\<close>.
  The right operand of \<^verbatim>\<open>||\<close> is evaluated only when the left one is false. The
  second component of the result records the operands of the subtraction when it is
  evaluated.\<close>

definition flush_check ::
  "size_t \<Rightarrow> size_t \<Rightarrow> c_int \<Rightarrow> size_t \<Rightarrow> bool \<times> (size_t \<times> size_t) option" where
  "flush_check free total' r sz =
     (if free \<le> reserve_threshold total' r then (True, None)
      else (sz > free - reserve_threshold total' r,
            Some (free, reserve_threshold total' r)))"

text \<open>\<^verbatim>\<open>LOG(FATAL)\<close> does not return: \<^verbatim>\<open>Alloc\<close> either returns a pointer or ends in
  the fatal error, with the state as it is at that point.\<close>

datatype alloc_result = Returned ptr | Fatal

text \<open>The branch of \<^verbatim>\<open>Alloc\<close> taken when the bucket is absent or empty, in two
  parts. First the query and the conditional flush:\<close>

definition flush_policy :: "'d runtime \<Rightarrow> size_t \<Rightarrow> 'd state \<Rightarrow> 'd state" where
  "flush_policy rt sz s =
     (case s of (m, w) \<Rightarrow>
        (case hipMemGetInfo rt (device w) of ((free, total'), d1) \<Rightarrow>
           let s1 = (m, \<lparr>device = d1, calls = calls w @ [CallMemGetInfo]\<rparr>)
           in if fst (flush_check free total' (reserve m) sz)
              then ReleaseAll rt s1 else s1))"

text \<open>then the size actually requested
  (\<^verbatim>\<open>if(size>2147483647) { size=4194304; //TODO.Temp fix Max space }\<close>) and the native
  allocation with its result:\<close>

definition native_size :: "size_t \<Rightarrow> size_t" where
  "native_size sz = (if sz > 2147483647 then 4194304 else sz)"

definition native_alloc :: "'d runtime \<Rightarrow> size_t \<Rightarrow> 'd state \<Rightarrow> alloc_result \<times> 'd state" where
  "native_alloc rt sz s2 =
     (case s2 of (m2, w2) \<Rightarrow>
        let sz' = native_size sz in
        (case hipMalloc rt sz' (device w2) of ((e, ret), d3) \<Rightarrow>
           let w3 = \<lparr>device = d3, calls = calls w2 @ [CallMalloc sz']\<rparr>
           in if e \<noteq> hipSuccess then (Fatal, (m2, w3))
              else (Returned ret, (m2\<lparr>used_memory := used_memory m2 + sz'\<rparr>, w3))))"

definition Alloc_miss :: "'d runtime \<Rightarrow> size_t \<Rightarrow> 'd state \<Rightarrow> alloc_result \<times> 'd state" where
  "Alloc_miss rt sz s = native_alloc rt sz (flush_policy rt sz s)"

text \<open>\<^verbatim>\<open>Alloc\<close> itself. The miss branch is taken when
  \<^verbatim>\<open>reuse_it == memory_pool_.end() || reuse_it->second.size() == 0\<close>; otherwise the
  last handle of the vector is popped and returned.\<close>

definition Alloc :: "'d runtime \<Rightarrow> size_t \<Rightarrow> 'd state \<Rightarrow> alloc_result \<times> 'd state" where
  "Alloc rt raw_size s =
     (case s of (m, w) \<Rightarrow>
        let sz = bucket_key raw_size in
        (case map_of (memory_pool m) sz of
           None \<Rightarrow> Alloc_miss rt sz s
         | Some reuse_pool \<Rightarrow>
             if reuse_pool = [] then Alloc_miss rt sz s
             else (Returned (last reuse_pool),
                   (m\<lparr>memory_pool :=
                        AList.update sz (butlast reuse_pool) (memory_pool m)\<rparr>, w))))"

subsection \<open>Free\<close>

text \<open>\<^verbatim>\<open>memory_pool_[size]\<close> inserts an empty vector when the key is absent.\<close>

definition Free :: "ptr \<Rightarrow> size_t \<Rightarrow> 'd state \<Rightarrow> 'd state" where
  "Free p raw_size s =
     (case s of (m, w) \<Rightarrow>
        let sz = bucket_key raw_size;
            reuse_pool = (case map_of (memory_pool m) sz of None \<Rightarrow> [] | Some v \<Rightarrow> v)
        in (m\<lparr>memory_pool := AList.update sz (reuse_pool @ [p]) (memory_pool m)\<rparr>, w))"

subsection \<open>Sequences of calls\<close>

text \<open>The calls a client can make. Next to the allocator's state runs the list of the
  handles that are checked out to callers, each with the raw size it was requested
  with: \<^verbatim>\<open>Alloc\<close> adds the handle it returns, \<^verbatim>\<open>Free\<close> and \<^verbatim>\<open>DirectFree\<close>
  take the handle away from the caller.\<close>

datatype op = OpAlloc size_t | OpFree ptr size_t | OpDirectFree ptr size_t | OpReleaseAll

type_synonym 'd config = "'d state \<times> (ptr \<times> size_t) list"

fun step :: "'d runtime \<Rightarrow> op \<Rightarrow> 'd config \<Rightarrow> 'd config" where
  "step rt (OpAlloc raw_size) (s, held) =
     (case Alloc rt raw_size s of
        (Returned p, s') \<Rightarrow> (s', (p, raw_size) # held)
      | (Fatal, s') \<Rightarrow> (s', held))"
| "step rt (OpFree p raw_size) (s, held) = (Free p raw_size s, remove1 (p, raw_size) held)"
| "step rt (OpDirectFree p raw_size) (s, held) =
     (DirectFree rt p raw_size s, remove1 (p, raw_size) held)"
| "step rt OpReleaseAll (s, held) = (ReleaseAll rt s, held)"

fun run :: "'d runtime \<Rightarrow> op list \<Rightarrow> 'd config \<Rightarrow> 'd config" where
  "run rt [] c = c"
| "run rt (x # xs) c = run rt xs (step rt x c)"

text \<open>The caller's contract: only a handle that is checked out is given back, and with
  the raw size it was requested with.\<close>

fun in_contract :: "op \<Rightarrow> (ptr \<times> size_t) list \<Rightarrow> bool" where
  "in_contract (OpFree p raw_size) held = ((p, raw_size) \<in> set held)"
| "in_contract (OpDirectFree p raw_size) held = ((p, raw_size) \<in> set held)"
| "in_contract x held = True"

fun run_in_contract :: "'d runtime \<Rightarrow> op list \<Rightarrow> 'd config \<Rightarrow> bool" where
  "run_in_contract rt [] c = True"
| "run_in_contract rt (x # xs) c =
     (in_contract x (snd c) \<and> run_in_contract rt xs (step rt x c))"

text \<open>The bucket keys that the \<^verbatim>\<open>Alloc\<close> calls of a sequence ask for. Up to
  2147483647 the native allocation requests the key itself.\<close>

fun alloc_sizes :: "op list \<Rightarrow> size_t list" where
  "alloc_sizes [] = []"
| "alloc_sizes (OpAlloc raw_size # xs) = bucket_key raw_size # alloc_sizes xs"
| "alloc_sizes (x # xs) = alloc_sizes xs"

text \<open>The bucket-key sizes of the handles checked out, and of the handles idle in the
  pool (a handle in the vector of key \<open>k\<close> counts \<open>k\<close>).\<close>

definition held_bytes :: "(ptr \<times> size_t) list \<Rightarrow> size_t" where
  "held_bytes held = sum_list (map (\<lambda>h. bucket_key (snd h)) held)"

definition pooled :: "(size_t \<times> ptr list) list \<Rightarrow> (ptr \<times> size_t) list" where
  "pooled pool = concat (map (\<lambda>i. map (\<lambda>j. (j, fst i)) (snd i)) pool)"

definition pooled_bytes :: "(size_t \<times> ptr list) list \<Rightarrow> size_t" where
  "pooled_bytes pool = sum_list (map snd (pooled pool))"

subsection \<open>A device to run the allocator on\<close>

text \<open>A small runtime for concrete runs: it keeps the free and total byte counts, the next
  address and the live blocks. \<open>hipMalloc\<close> fails with code 2 (out of memory) when
  the request exceeds the free bytes; \<open>hipFree\<close> fails with code 1 on a pointer that
  is not a live block.\<close>

record sim_device =
  sim_free :: size_t
  sim_total :: size_t
  sim_next :: ptr
  sim_blocks :: "(ptr \<times> size_t) list"

definition sim_hipFree :: "ptr \<Rightarrow> sim_device \<Rightarrow> hipError_t \<times> sim_device" where
  "sim_hipFree p d =
     (case map_of (sim_blocks d) p of
        None \<Rightarrow> (hipErrorCode 1, d)
      | Some n \<Rightarrow> (hipSuccess,
                  d\<lparr>sim_free := sim_free d + n, sim_blocks := AList.delete p (sim_blocks d)\<rparr>))"

definition sim_hipMalloc :: "size_t \<Rightarrow> sim_device \<Rightarrow> (hipError_t \<times> ptr) \<times> sim_device" where
  "sim_hipMalloc n d =
     (if n \<le> sim_free d
      then ((hipSuccess, sim_next d),
            d\<lparr>sim_free := sim_free d - n, sim_next := sim_next d + n,
              sim_blocks := (sim_next d, n) # sim_blocks d\<rparr>)
      else ((hipErrorCode 2, 0), d))"

definition sim_runtime :: "sim_device runtime" where
  "sim_runtime =
     \<lparr>hipFree = sim_hipFree,
      hipMemGetInfo = (\<lambda>d. ((sim_free d, sim_total d), d)),
      hipMalloc = sim_hipMalloc\<rparr>"

definition sim_world :: "size_t \<Rightarrow> size_t \<Rightarrow> sim_device world" where
  "sim_world free total' =
     \<lparr>device = \<lparr>sim_free = free, sim_total = total', sim_next = 4096, sim_blocks = []\<rparr>,
      calls = []\<rparr>"

subsection \<open>Observations used in the statements\<close>

text \<open>Whether \<^verbatim>\<open>Alloc\<close> takes the miss branch for the key \<open>sz\<close>: the bucket is absent
  or empty.\<close>

definition pool_miss :: "manager \<Rightarrow> size_t \<Rightarrow> bool" where
  "pool_miss m sz =
     (case map_of (memory_pool m) sz of None \<Rightarrow> True | Some reuse_pool \<Rightarrow> reuse_pool = [])"

text \<open>Whether the miss path of \<^verbatim>\<open>Alloc\<close>, entered in state \<open>s\<close> for the key \<open>sz\<close>,
  calls \<^verbatim>\<open>ReleaseAll\<close>: the condition of the source on what \<^verbatim>\<open>hipMemGetInfo\<close>
  answers.\<close>

definition flush_decision :: "'d runtime \<Rightarrow> size_t \<Rightarrow> 'd state \<Rightarrow> bool" where
  "flush_decision rt sz s =
     (case hipMemGetInfo rt (device (snd s)) of
        ((free, total'), d1) \<Rightarrow> fst (flush_check free total' (reserve (fst s)) sz))"

text \<open>The number of \<^verbatim>\<open>hipMalloc\<close> calls in a call log.\<close>

fun malloc_calls :: "dev_call list \<Rightarrow> nat" where
  "malloc_calls [] = 0"
| "malloc_calls (CallMalloc n # cs) = Suc (malloc_calls cs)"
| "malloc_calls (c # cs) = malloc_calls cs"

text \<open>The bucket-key sizes of all handles obtained from the runtime and not yet returned
  to it: those checked out to callers, then those idle in the pool.\<close>

definition outstanding_keys :: "'d config \<Rightarrow> size_t list" where
  "outstanding_keys c =
     map (\<lambda>h. bucket_key (snd h)) (snd c) @ map snd (pooled (memory_pool (fst (fst c))))"

text \<open>The accounting invariant, on \<^verbatim>\<open>size_t\<close>.\<close>

definition accounted :: "'d config \<Rightarrow> bool" where
  "accounted c \<longleftrightarrow>
     used_memory (fst (fst c)) = held_bytes (snd c) + pooled_bytes (memory_pool (fst (fst c)))"

text \<open>The vector stored for a key, if any.\<close>

definition bucket :: "manager \<Rightarrow> size_t \<Rightarrow> ptr list option" where
  "bucket m k = map_of (memory_pool m) k"

text \<open>Whether \<^verbatim>\<open>Alloc(raw_size)\<close> in state \<open>s\<close> runs \<^verbatim>\<open>ReleaseAll\<close>: it takes the miss
  path and the reserve condition holds.\<close>

definition Alloc_flushes :: "'d runtime \<Rightarrow> size_t \<Rightarrow> 'd state \<Rightarrow> bool" where
  "Alloc_flushes rt raw_size s =
     (pool_miss (fst s) (bucket_key raw_size) \<and> flush_decision rt (bucket_key raw_size) s)"

text \<open>The calls that may come between a \<^verbatim>\<open>Free(p, S)\<close> and the next \<^verbatim>\<open>Alloc(S)\<close>
  for that handle to be the one reused: no \<^verbatim>\<open>ReleaseAll\<close>, by the client or inside
  an \<^verbatim>\<open>Alloc\<close>, no \<^verbatim>\<open>Alloc\<close> of the size \<open>S\<close>, and no later \<^verbatim>\<open>Free\<close> of the size
  \<open>S\<close> (which would be the most recent one).\<close>

fun keeps_bucket :: "'d runtime \<Rightarrow> size_t \<Rightarrow> op \<Rightarrow> 'd state \<Rightarrow> bool" where
  "keeps_bucket rt S (OpAlloc raw_size) s = (raw_size \<noteq> S \<and> \<not> Alloc_flushes rt raw_size s)"
| "keeps_bucket rt S (OpFree q raw_size) s = (raw_size \<noteq> S)"
| "keeps_bucket rt S (OpDirectFree q raw_size) s = True"
| "keeps_bucket rt S OpReleaseAll s = False"

fun run_keeps_bucket :: "'d runtime \<Rightarrow> size_t \<Rightarrow> op list \<Rightarrow> 'd config \<Rightarrow> bool" where
  "run_keeps_bucket rt S [] c = True"
| "run_keeps_bucket rt S (x # xs) c =
     (keeps_bucket rt S x (fst c) \<and> run_keeps_bucket rt S xs (step rt x c))"

section \<open>Properties\<close>

subsection \<open>What the operations do to the fields and to the call log\<close>

lemma bucket_key_sub [simp]: "bucket_key (k - NDEV) = k"
  by (simp add: bucket_key_def)

lemma bucket_key_inj [simp]: "(bucket_key a = bucket_key b) = (a = b)"
  by (simp add: bucket_key_def)

lemma DirectFree_manager:
  "fst (DirectFree rt p raw_size s) =
     (fst s)\<lparr>used_memory := used_memory (fst s) - bucket_key raw_size\<rparr>"
  by (simp add: DirectFree_def split: prod.splits)

lemma DirectFree_calls:
  "calls (snd (DirectFree rt p raw_size s)) = calls (snd s) @ [CallFree p]"
  by (simp add: DirectFree_def split: prod.splits)

lemma release_bucket_manager:
  "fst (release_bucket rt k v s) =
     (fst s)\<lparr>used_memory := used_memory (fst s) - k * of_nat (length v)\<rparr>"
  by (induction v arbitrary: s) (simp_all add: DirectFree_manager algebra_simps)

lemma release_bucket_calls:
  "calls (snd (release_bucket rt k v s)) = calls (snd s) @ map CallFree v"
  by (induction v arbitrary: s) (simp_all add: DirectFree_calls)

lemma pooled_Nil [simp]: "pooled [] = []"
  by (simp add: pooled_def)

lemma pooled_Cons: "pooled (i # rest) = map (\<lambda>j. (j, fst i)) (snd i) @ pooled rest"
  by (simp add: pooled_def)

lemma sum_list_const_key:
  "sum_list (map snd (map (\<lambda>j. (j, k)) v)) = (k :: size_t) * of_nat (length v)"
  by (induction v) (simp_all add: algebra_simps)

lemma pooled_bytes_Nil [simp]: "pooled_bytes [] = 0"
  by (simp add: pooled_bytes_def)

lemma pooled_bytes_Cons:
  "pooled_bytes (i # rest) = fst i * of_nat (length (snd i)) + pooled_bytes rest"
  using sum_list_const_key [of "fst i" "snd i"]
  by (simp add: pooled_bytes_def pooled_Cons)

lemma release_buckets_manager:
  "fst (release_buckets rt pool s) =
     (fst s)\<lparr>used_memory := used_memory (fst s) - pooled_bytes pool\<rparr>"
  by (induction pool arbitrary: s)
     (simp_all add: release_bucket_manager pooled_bytes_Cons algebra_simps)

lemma release_buckets_calls:
  "calls (snd (release_buckets rt pool s)) =
     calls (snd s) @ map CallFree (concat (map snd pool))"
  by (induction pool arbitrary: s)
     (simp_all add: release_bucket_calls)

lemma ReleaseAll_manager:
  "fst (ReleaseAll rt s) =
     (fst s)\<lparr>used_memory := used_memory (fst s) - pooled_bytes (memory_pool (fst s)),
             memory_pool := []\<rparr>"
  by (simp add: ReleaseAll_def case_prod_beta release_buckets_manager)

lemma ReleaseAll_calls:
  "calls (snd (ReleaseAll rt s)) =
     calls (snd s) @ map CallFree (concat (map snd (memory_pool (fst s))))"
  by (simp add: ReleaseAll_def case_prod_beta release_buckets_calls)

lemma ReleaseAll_empty: "memory_pool (fst s) = [] \<Longrightarrow> ReleaseAll rt s = s"
  by (cases s) (simp add: ReleaseAll_def)

lemma ReleaseAll_pool [simp]: "memory_pool (fst (ReleaseAll rt s)) = []"
  by (simp add: ReleaseAll_manager)

lemma Alloc_on_hit:
  "map_of (memory_pool m) (bucket_key raw_size) = Some v \<Longrightarrow> v \<noteq> [] \<Longrightarrow>
   Alloc rt raw_size (m, w) =
     (Returned (last v),
      (m\<lparr>memory_pool := AList.update (bucket_key raw_size) (butlast v) (memory_pool m)\<rparr>, w))"
  by (simp add: Alloc_def Let_def)

lemma Alloc_on_miss:
  "pool_miss (fst s) (bucket_key raw_size) \<Longrightarrow>
   Alloc rt raw_size s =
     native_alloc rt (bucket_key raw_size) (flush_policy rt (bucket_key raw_size) s)"
  by (cases s)
     (auto simp: Alloc_def Alloc_miss_def pool_miss_def Let_def split: option.splits)

lemma flush_policy_flush:
  "hipMemGetInfo rt (device w) = ((free, total'), d1) \<Longrightarrow>
   fst (flush_check free total' (reserve m) sz) \<Longrightarrow>
   flush_policy rt sz (m, w) =
     ReleaseAll rt (m, \<lparr>device = d1, calls = calls w @ [CallMemGetInfo]\<rparr>)"
  by (simp add: flush_policy_def)

lemma flush_check_fst:
  "fst (flush_check free total' r sz) \<longleftrightarrow>
     free \<le> reserve_threshold total' r \<or> sz > free - reserve_threshold total' r"
  by (simp add: flush_check_def)

lemma native_size_le: "native_size sz \<le> sz"
  by (auto simp: native_size_def word_less_def word_le_def)

text \<open>A native allocation that would leave less than the threshold free (on unbounded
  integers) satisfies the condition of the source.\<close>

lemma breach_flush_check:
  assumes "uint free - uint (native_size sz) < uint (reserve_threshold total' r)"
  shows "fst (flush_check free total' r sz)"
proof (cases "free \<le> reserve_threshold total' r")
  case True
  then show ?thesis by (simp add: flush_check_def)
next
  case False
  then have "reserve_threshold total' r \<le> free" by simp
  then have sub: "uint (free - reserve_threshold total' r) =
      uint free - uint (reserve_threshold total' r)"
    by (rule uint_minus_simple_alt [THEN iffD1])
  have "uint (native_size sz) \<le> uint sz"
    using native_size_le [of sz] by (simp add: word_le_def)
  then have "uint (free - reserve_threshold total' r) < uint sz"
    using assms sub by linarith
  then show ?thesis
    using False by (simp add: flush_check_def word_less_def)
qed

lemma native_alloc_calls:
  "calls (snd (snd (native_alloc rt sz s2))) = calls (snd s2) @ [CallMalloc (native_size sz)]"
  by (simp add: native_alloc_def Let_def split: prod.splits)

lemma native_alloc_Fatal:
  "fst (native_alloc rt sz s2) = Fatal \<longleftrightarrow>
     fst (fst (hipMalloc rt (native_size sz) (device (snd s2)))) \<noteq> hipSuccess"
  by (simp add: native_alloc_def Let_def split: prod.splits)

lemma native_alloc_manager:
  "fst (snd (native_alloc rt sz s2)) =
     (if fst (native_alloc rt sz s2) = Fatal then fst s2
      else (fst s2)\<lparr>used_memory := used_memory (fst s2) + native_size sz\<rparr>)"
  by (simp add: native_alloc_def Let_def split: prod.splits)

lemma malloc_calls_append [simp]:
  "malloc_calls (xs @ ys) = malloc_calls xs + malloc_calls ys"
  by (induction xs rule: malloc_calls.induct) simp_all

lemma malloc_calls_frees [simp]: "malloc_calls (map CallFree ps) = 0"
  by (induction ps) simp_all

lemma flush_policy_manager:
  "fst (flush_policy rt sz s) =
     (if flush_decision rt sz s
      then (fst s)\<lparr>used_memory := used_memory (fst s) - pooled_bytes (memory_pool (fst s)),
                   memory_pool := []\<rparr>
      else fst s)"
  by (cases s)
     (simp add: flush_policy_def flush_decision_def ReleaseAll_manager split: prod.splits)

lemma flush_policy_calls:
  "calls (snd (flush_policy rt sz s)) =
     calls (snd s) @ [CallMemGetInfo] @
     (if flush_decision rt sz s
      then map CallFree (concat (map snd (memory_pool (fst s)))) else [])"
  by (cases s)
     (simp add: flush_policy_def flush_decision_def ReleaseAll_calls split: prod.splits)

lemma Alloc_Fatal_iff:
  "fst (Alloc rt raw_size s) = Fatal \<longleftrightarrow>
     pool_miss (fst s) (bucket_key raw_size) \<and>
     fst (fst (hipMalloc rt (native_size (bucket_key raw_size))
            (device (snd (flush_policy rt (bucket_key raw_size) s))))) \<noteq> hipSuccess"
proof (cases "pool_miss (fst s) (bucket_key raw_size)")
  case True
  then show ?thesis by (simp add: Alloc_on_miss native_alloc_Fatal)
next
  case False
  then show ?thesis
    by (cases s) (auto simp: Alloc_def pool_miss_def Let_def split: option.splits)
qed

text \<open>The definitions that a concrete run unfolds.\<close>

lemmas sim_simps =
  sim_runtime_def sim_hipFree_def sim_hipMalloc_def sim_world_def
  GPUPooledStorageManager_def GetEnv_def

lemmas alloc_simps =
  Alloc_def Alloc_miss_def pool_miss_def flush_policy_def flush_check_def
  reserve_threshold_def native_alloc_def native_size_def bucket_key_def NDEV_def
  ReleaseAll_def DirectFree_def Free_def Let_def

subsection \<open>DirectFree\<close>

text \<open>
  Claim C8. For every call \<open>DirectFree(handle, raw_size)\<close> the used-memory counter is
  decremented by exactly \<open>raw_size + NDEV\<close> (in \<^verbatim>\<open>size_t\<close> arithmetic), whatever status
  \<open>err\<close> the runtime's \<open>hipFree\<close> reports; nothing else of the allocator changes, the
  call is logged, and \<open>DirectFree\<close> has no failing outcome.
\<close>

theorem DirectFree_always_decrements:
  "hipFree rt p (device w) = (err, d') \<Longrightarrow>
   DirectFree rt p raw_size (m, w) =
     (m\<lparr>used_memory := used_memory m - (raw_size + NDEV)\<rparr>,
      \<lparr>device = d', calls = calls w @ [CallFree p]\<rparr>)"
  by (simp add: DirectFree_def bucket_key_def)

text \<open>A run where the native free fails: pointer 7 is no live block of the device.\<close>

theorem DirectFree_always_decrements_witness:
  "hipFree sim_runtime 7 (device (sim_world 1000 1000)) =
     (hipErrorCode 1, device (sim_world 1000 1000)) \<and>
   DirectFree sim_runtime 7 64
       (GPUPooledStorageManager None\<lparr>used_memory := 96\<rparr>, sim_world 1000 1000) =
     (GPUPooledStorageManager None\<lparr>used_memory := 0\<rparr>,
      \<lparr>device = device (sim_world 1000 1000), calls = [CallFree 7]\<rparr>)"
proof -
  have h: "hipFree sim_runtime 7 (device (sim_world 1000 1000)) =
     (hipErrorCode 1, device (sim_world 1000 1000))"
    by (simp add: sim_runtime_def sim_hipFree_def sim_world_def)
  show ?thesis
    using h DirectFree_always_decrements
      [OF h, of 64 "GPUPooledStorageManager None\<lparr>used_memory := 96\<rparr>"]
    by (simp add: NDEV_def sim_world_def)
qed

subsection \<open>ReleaseAll\<close>

text \<open>
  Claim C9. \<open>ReleaseAll\<close> is idempotent: a second call right after the first leaves the
  whole state as the first call left it (free lists, used-memory counter, and also the
  device and the call log, so the second call issues no native free); the pool is empty
  after the first call; and on a pool that is already empty \<open>ReleaseAll\<close> changes
  nothing.
\<close>

theorem ReleaseAll_idempotent:
  "ReleaseAll rt (ReleaseAll rt s) = ReleaseAll rt s \<and>
   calls (snd (ReleaseAll rt (ReleaseAll rt s))) = calls (snd (ReleaseAll rt s)) \<and>
   memory_pool (fst (ReleaseAll rt s)) = [] \<and>
   (memory_pool (fst s) = [] \<longrightarrow> ReleaseAll rt s = s)"
  by (simp add: ReleaseAll_empty)

theorem ReleaseAll_idempotent_witness:
  "memory_pool (fst (GPUPooledStorageManager None, sim_world 1000 1000)) = [] \<and>
   ReleaseAll sim_runtime (GPUPooledStorageManager None, sim_world 1000 1000) =
     (GPUPooledStorageManager None, sim_world 1000 1000)"
  using ReleaseAll_idempotent
    [of sim_runtime "(GPUPooledStorageManager None, sim_world 1000 1000)"]
  by (simp add: GPUPooledStorageManager_def)

subsection \<open>The reserve check of Alloc\<close>

text \<open>
  Claim C10. In the condition
  \<^verbatim>\<open>free <= total * reserve_ / 100 || size > free - total * reserve_ / 100\<close> the
  subtraction is evaluated only when \<open>free\<close> is greater than the threshold: whenever
  its operands \<open>(a, b)\<close> are recorded, they are \<open>free\<close> and the threshold, \<open>b < a\<close>, and
  the difference of the words is the difference of the numbers (no wrap below zero);
  when it is not evaluated, \<open>free\<close> is at or below the threshold. So the decision is
  the one computed on unbounded integers. This holds for every \<open>free\<close>, \<open>total\<close>
  and \<open>reserve_\<close>.
\<close>

theorem flush_check_no_underflow:
  "(snd (flush_check free total' r sz) = Some (a, b) \<longrightarrow>
      a = free \<and> b = reserve_threshold total' r \<and> b < a \<and>
      uint (a - b) = uint a - uint b) \<and>
   (snd (flush_check free total' r sz) = None \<longrightarrow> free \<le> reserve_threshold total' r) \<and>
   (fst (flush_check free total' r sz) \<longleftrightarrow>
      uint free \<le> uint (reserve_threshold total' r) \<or>
      uint sz > uint free - uint (reserve_threshold total' r))"
  apply (simp add: flush_check_def split: if_splits)
  apply (auto simp: word_le_def word_less_def uint_sub_if_size uint_minus_simple_alt)
  done

text \<open>With \<open>free = 101\<close>, \<open>total = 1000\<close> and a reserve of 10 percent the subtraction
  is evaluated on \<open>(101, 100)\<close>; with \<open>free = 100\<close> it is not evaluated.\<close>

theorem flush_check_no_underflow_witness:
  "snd (flush_check 101 1000 10 82) = Some (101, 100) \<and>
   (100 :: size_t) < 101 \<and> uint (101 - 100 :: size_t) = uint (101 :: size_t) - uint (100 :: size_t) \<and>
   snd (flush_check 100 1000 10 82) = None \<and> (100 :: size_t) \<le> reserve_threshold 1000 10"
  using flush_check_no_underflow [of 101 1000 10 82 101 100]
        flush_check_no_underflow [of 100 1000 10 82]
  by (simp add: flush_check_def reserve_threshold_def)

subsection \<open>Alloc: the flush before the native allocation\<close>

text \<open>
  Claim C3. Whenever \<open>Alloc\<close> takes the miss path (the bucket of the key is absent or
  empty) and the free capacity the device reports is at or below
  \<open>total * reserve_ / 100\<close>, or the bucket key exceeds \<open>free\<close> minus that threshold
  (both as the source computes them on \<^verbatim>\<open>size_t\<close>), or the native allocation would
  leave less than the threshold free, \<open>Alloc\<close> runs \<open>ReleaseAll\<close> before
  the native allocation: its result is the native allocation made from the state that
  \<open>ReleaseAll\<close> left after the query, and the runtime sees the query, then one
  \<open>hipFree\<close> for every pooled handle, then the single \<open>hipMalloc\<close>.
\<close>

theorem Alloc_flushes_before_native_alloc:
  assumes "pool_miss m (bucket_key raw_size)"
    and "hipMemGetInfo rt (device w) = ((free, total'), d1)"
    and "free \<le> reserve_threshold total' (reserve m) \<or>
         bucket_key raw_size > free - reserve_threshold total' (reserve m) \<or>
         uint free - uint (native_size (bucket_key raw_size)) <
           uint (reserve_threshold total' (reserve m))"
  shows "Alloc rt raw_size (m, w) =
           native_alloc rt (bucket_key raw_size)
             (ReleaseAll rt (m, \<lparr>device = d1, calls = calls w @ [CallMemGetInfo]\<rparr>)) \<and>
         calls (snd (snd (Alloc rt raw_size (m, w)))) =
           calls w @ [CallMemGetInfo] @ map CallFree (concat (map snd (memory_pool m))) @
           [CallMalloc (native_size (bucket_key raw_size))]"
proof -
  have "fst (flush_check free total' (reserve m) (bucket_key raw_size))"
    using assms(3) breach_flush_check [of free "bucket_key raw_size" total' "reserve m"]
    by (auto simp: flush_check_fst)
  then have "flush_policy rt (bucket_key raw_size) (m, w) =
      ReleaseAll rt (m, \<lparr>device = d1, calls = calls w @ [CallMemGetInfo]\<rparr>)"
    using assms(2) by (rule flush_policy_flush [rotated])
  then have eq: "Alloc rt raw_size (m, w) =
      native_alloc rt (bucket_key raw_size)
        (ReleaseAll rt (m, \<lparr>device = d1, calls = calls w @ [CallMemGetInfo]\<rparr>))"
    using assms(1) by (simp add: Alloc_on_miss)
  show ?thesis
    by (simp add: eq native_alloc_calls ReleaseAll_calls)
qed

text \<open>The scenario of the specification: a reserve of 10 percent, a total of 1000, free
  capacity 100, and \<open>Alloc(50)\<close> while one handle is idle in the bucket of key 96.\<close>

theorem Alloc_flushes_before_native_alloc_witness:
  "pool_miss \<lparr>used_memory = 96, reserve = 10, memory_pool = [(96, [4096])]\<rparr> (bucket_key 50) \<and>
   hipMemGetInfo sim_runtime
     (device \<lparr>device = \<lparr>sim_free = 100, sim_total = 1000, sim_next = 4192,
                         sim_blocks = [(4096, 96)]\<rparr>, calls = []\<rparr>) =
     ((100, 1000), \<lparr>sim_free = 100, sim_total = 1000, sim_next = 4192,
                    sim_blocks = [(4096, 96)]\<rparr>) \<and>
   (100 :: size_t) \<le> reserve_threshold 1000 10 \<and>
   calls (snd (snd (Alloc sim_runtime 50
     (\<lparr>used_memory = 96, reserve = 10, memory_pool = [(96, [4096])]\<rparr>,
      \<lparr>device = \<lparr>sim_free = 100, sim_total = 1000, sim_next = 4192,
                  sim_blocks = [(4096, 96)]\<rparr>, calls = []\<rparr>)))) =
     [CallMemGetInfo, CallFree 4096, CallMalloc 82]"
proof -
  have a: "pool_miss \<lparr>used_memory = 96, reserve = 10, memory_pool = [(96, [4096])]\<rparr>
             (bucket_key 50)"
    by (simp add: pool_miss_def bucket_key_def NDEV_def)
  have b: "hipMemGetInfo sim_runtime
     (device \<lparr>device = \<lparr>sim_free = 100, sim_total = 1000, sim_next = 4192,
                         sim_blocks = [(4096, 96)]\<rparr>, calls = []\<rparr>) =
     ((100, 1000), \<lparr>sim_free = 100, sim_total = 1000, sim_next = 4192,
                    sim_blocks = [(4096, 96)]\<rparr>)"
    by (simp add: sim_runtime_def)
  have c: "(100 :: size_t) \<le> reserve_threshold 1000 10"
    by (simp add: reserve_threshold_def)
  have c': "100 \<le> reserve_threshold 1000
       (reserve \<lparr>used_memory = 96, reserve = 10, memory_pool = [(96, [4096])]\<rparr>) \<or>
     bucket_key 50 > 100 - reserve_threshold 1000
       (reserve \<lparr>used_memory = 96, reserve = 10, memory_pool = [(96, [4096])]\<rparr>) \<or>
     uint (100 :: size_t) - uint (native_size (bucket_key 50)) <
       uint (reserve_threshold 1000
         (reserve \<lparr>used_memory = 96, reserve = 10, memory_pool = [(96, [4096])]\<rparr>))"
    using c by simp
  show ?thesis
    using a b c Alloc_flushes_before_native_alloc [OF a b c', THEN conjunct2]
    by (simp add: native_size_def bucket_key_def NDEV_def)
qed

subsection \<open>Alloc: failure\<close>

text \<open>
  Claim C6, as the source has it. \<open>Alloc\<close> ends in the fatal error if and only if it
  takes the miss path and \<open>hipMalloc\<close>, called after the query and the conditional
  flush, does not answer \<open>hipSuccess\<close>. On that failure the allocator is in the state
  the flush policy left: the state before the call when no flush ran or the pool was
  empty, and otherwise the state with the pool emptied and the counter decremented by the
  bytes released. No failed call increments the counter, and the call log gains exactly
  one \<open>hipMalloc\<close> (no retry).
\<close>

theorem Alloc_fails_iff_native_alloc_fails:
  "(fst (Alloc rt raw_size s) = Fatal \<longleftrightarrow>
      pool_miss (fst s) (bucket_key raw_size) \<and>
      fst (fst (hipMalloc rt (native_size (bucket_key raw_size))
             (device (snd (flush_policy rt (bucket_key raw_size) s))))) \<noteq> hipSuccess) \<and>
   (fst (Alloc rt raw_size s) = Fatal \<longrightarrow>
      fst (snd (Alloc rt raw_size s)) = fst (flush_policy rt (bucket_key raw_size) s) \<and>
      fst (flush_policy rt (bucket_key raw_size) s) =
        (if flush_decision rt (bucket_key raw_size) s
         then (fst s)\<lparr>used_memory := used_memory (fst s) - pooled_bytes (memory_pool (fst s)),
                      memory_pool := []\<rparr>
         else fst s) \<and>
      (memory_pool (fst s) = [] \<longrightarrow> fst (snd (Alloc rt raw_size s)) = fst s) \<and>
      malloc_calls (calls (snd (snd (Alloc rt raw_size s)))) =
        Suc (malloc_calls (calls (snd s))))"
proof -
  have "fst (snd (Alloc rt raw_size s)) = fst (flush_policy rt (bucket_key raw_size) s) \<and>
        malloc_calls (calls (snd (snd (Alloc rt raw_size s)))) =
          Suc (malloc_calls (calls (snd s)))"
    if "fst (Alloc rt raw_size s) = Fatal"
  proof -
    from that have miss: "pool_miss (fst s) (bucket_key raw_size)"
      by (simp add: Alloc_Fatal_iff)
    then have eq: "Alloc rt raw_size s =
        native_alloc rt (bucket_key raw_size) (flush_policy rt (bucket_key raw_size) s)"
      by (rule Alloc_on_miss)
    from that show ?thesis
      by (simp add: eq native_alloc_manager native_alloc_calls flush_policy_calls)
  qed
  moreover have "memory_pool (fst s) = [] \<Longrightarrow>
      fst (flush_policy rt (bucket_key raw_size) s) = fst s"
    by (simp add: flush_policy_manager)
  ultimately show ?thesis
    by (simp add: Alloc_Fatal_iff flush_policy_manager)
qed

text \<open>Two failing calls on a device with 100 bytes free of 1000: one from the empty pool,
  where the allocator is left as it was, and one after \<open>Alloc(64)\<close>, \<open>Free\<close>.\<close>

theorem Alloc_fails_iff_native_alloc_fails_witness:
  "fst (Alloc sim_runtime 5000 (GPUPooledStorageManager (Some 10), sim_world 100 1000)) = Fatal \<and>
   memory_pool (fst (GPUPooledStorageManager (Some 10), sim_world 100 1000)) = [] \<and>
   fst (snd (Alloc sim_runtime 5000 (GPUPooledStorageManager (Some 10), sim_world 100 1000))) =
     GPUPooledStorageManager (Some 10) \<and>
   malloc_calls (calls (snd (snd
     (Alloc sim_runtime 5000 (GPUPooledStorageManager (Some 10), sim_world 100 1000))))) = 1"
  using Alloc_fails_iff_native_alloc_fails
    [of sim_runtime 5000 "(GPUPooledStorageManager (Some 10), sim_world 100 1000)"]
  by (simp add: alloc_simps sim_simps)

text \<open>
  Claim C6, as the specification states it ("on that failure the allocator's state is
  unchanged"), fails where the flush ran on a pool that was not empty: after
  \<open>Alloc(64)\<close> and \<open>Free\<close> on a device with 196 bytes free of 1000, a failing
  \<open>Alloc(5000)\<close> leaves the counter at 0 instead of 96 and the pool empty.
\<close>

theorem Alloc_fatal_after_flush_changes_state:
  "fst (run sim_runtime [OpAlloc 64, OpFree 4096 64]
          ((GPUPooledStorageManager (Some 10), sim_world 196 1000), [])) =
     (\<lparr>used_memory = 96, reserve = 10, memory_pool = [(96, [4096])]\<rparr>,
      \<lparr>device = \<lparr>sim_free = 100, sim_total = 1000, sim_next = 4192,
                  sim_blocks = [(4096, 96)]\<rparr>,
       calls = [CallMemGetInfo, CallMalloc 96]\<rparr>) \<and>
   fst (Alloc sim_runtime 5000
     (\<lparr>used_memory = 96, reserve = 10, memory_pool = [(96, [4096])]\<rparr>,
      \<lparr>device = \<lparr>sim_free = 100, sim_total = 1000, sim_next = 4192,
                  sim_blocks = [(4096, 96)]\<rparr>,
       calls = [CallMemGetInfo, CallMalloc 96]\<rparr>)) = Fatal \<and>
   fst (snd (Alloc sim_runtime 5000
     (\<lparr>used_memory = 96, reserve = 10, memory_pool = [(96, [4096])]\<rparr>,
      \<lparr>device = \<lparr>sim_free = 100, sim_total = 1000, sim_next = 4192,
                  sim_blocks = [(4096, 96)]\<rparr>,
       calls = [CallMemGetInfo, CallMalloc 96]\<rparr>))) =
     \<lparr>used_memory = 0, reserve = 10, memory_pool = []\<rparr>"
  by (simp add: alloc_simps sim_simps)

subsection \<open>Alloc: the size of the buffer\<close>

text \<open>
  Claim C1 says that \<open>Alloc\<close> returns a buffer of exactly \<open>raw_size + NDEV\<close> bytes or
  fails. The source replaces every size above 2147483647 by 4194304 before
  \<^verbatim>\<open>hipMalloc\<close> (\<^verbatim>\<open>//TODO.Temp fix Max space\<close>): on a device with 8 GiB free,
  \<open>Alloc(2147483648)\<close> succeeds with a buffer of 4 MiB and counts 4 MiB, while
  \<open>Free\<close> and \<open>DirectFree\<close> go on to use the key 2147483680 for that handle.
\<close>

theorem Alloc_oversize_allocates_4MiB:
  "Alloc sim_runtime 2147483648
     (GPUPooledStorageManager None, sim_world 8589934592 17179869184) =
   (Returned 4096,
    (\<lparr>used_memory = 4194304, reserve = 5, memory_pool = []\<rparr>,
     \<lparr>device = \<lparr>sim_free = 8585740288, sim_total = 17179869184, sim_next = 4198400,
                 sim_blocks = [(4096, 4194304)]\<rparr>,
      calls = [CallMemGetInfo, CallMalloc 4194304]\<rparr>))"
  by (simp add: alloc_simps sim_simps)

subsection \<open>Construction\<close>

text \<open>
  Claim C7, as the source has it. A reserve percentage outside 0..100 that
  \<^verbatim>\<open>GetEnv\<close> hands to the constructor is not detected: the constructor has no range
  check and stores the value unchanged, so the stored \<open>reserve_\<close> is still outside
  0..100 (not clamped), and it is the value the reserve check of \<open>Alloc\<close> reads on the
  new allocator.
\<close>

theorem out_of_range_reserve_is_stored:
  assumes "v <s 0 \<or> 100 <s v"
  shows "reserve (GPUPooledStorageManager (Some v)) = v \<and>
         (reserve (GPUPooledStorageManager (Some v)) <s 0 \<or>
          100 <s reserve (GPUPooledStorageManager (Some v))) \<and>
         flush_decision rt sz (GPUPooledStorageManager (Some v), w) =
           fst (flush_check (fst (fst (hipMemGetInfo rt (device w))))
                  (snd (fst (hipMemGetInfo rt (device w)))) v sz)"
  using assms
  by (simp add: GPUPooledStorageManager_def GetEnv_def flush_decision_def case_prod_beta)

text \<open>A reserve of 150 percent: with a total of 1000 the threshold is 1500, so a miss
  flushes although 1200 bytes are free.\<close>

theorem out_of_range_reserve_is_stored_witness:
  "(100 :: c_int) <s 150 \<and>
   reserve (GPUPooledStorageManager (Some 150)) = 150 \<and>
   flush_decision sim_runtime 82 (GPUPooledStorageManager (Some 150), sim_world 1200 1000) \<and>
   reserve_threshold 1000 150 = 1500"
proof -
  have h: "(150 :: c_int) <s 0 \<or> (100 :: c_int) <s 150"
    by (simp add: word_sless_alt)
  show ?thesis
    using out_of_range_reserve_is_stored [OF h, of sim_runtime 82 "sim_world 1200 1000"]
    by (simp add: word_sless_alt flush_check_def reserve_threshold_def sim_simps)
qed

text \<open>
  Claim C7, as the specification states it (a value outside 0..100 is a configuration
  error detected at construction), fails at 150 and at -1: the constructor returns an
  allocator holding that value.
\<close>

theorem constructor_accepts_150:
  "GPUPooledStorageManager (Some 150) = \<lparr>used_memory = 0, reserve = 150, memory_pool = []\<rparr> \<and>
   (100 :: c_int) <s 150 \<and>
   GPUPooledStorageManager (Some (- 1)) =
     \<lparr>used_memory = 0, reserve = - 1, memory_pool = []\<rparr> \<and>
   (- 1 :: c_int) <s 0"
  by (simp add: GPUPooledStorageManager_def GetEnv_def word_sless_alt)

subsection \<open>The used-memory counter\<close>

lemma held_bytes_Nil [simp]: "held_bytes [] = 0"
  by (simp add: held_bytes_def)

lemma held_bytes_Cons [simp]: "held_bytes (h # held) = bucket_key (snd h) + held_bytes held"
  by (simp add: held_bytes_def)

lemma held_bytes_remove1:
  "h \<in> set held \<Longrightarrow> held_bytes (remove1 h held) = held_bytes held - bucket_key (snd h)"
  by (induction held) auto

lemma pooled_bytes_update:
  "pooled_bytes (AList.update k v' al) =
     pooled_bytes al
     - k * of_nat (length (case map_of al k of None \<Rightarrow> [] | Some v \<Rightarrow> v))
     + k * of_nat (length v')"
  by (induction al) (auto simp: pooled_bytes_Cons)

lemma sum_outstanding_keys:
  "sum_list (outstanding_keys c) = held_bytes (snd c) + pooled_bytes (memory_pool (fst (fst c)))"
  by (simp add: outstanding_keys_def held_bytes_def pooled_bytes_def)

lemma Free_manager:
  "fst (Free p raw_size s) =
     (fst s)\<lparr>memory_pool :=
        AList.update (bucket_key raw_size)
          ((case map_of (memory_pool (fst s)) (bucket_key raw_size) of None \<Rightarrow> [] | Some v \<Rightarrow> v) @ [p])
          (memory_pool (fst s))\<rparr>"
  by (cases s) (simp add: Free_def Let_def)

lemma Free_world: "snd (Free p raw_size s) = snd s"
  by (cases s) (simp add: Free_def Let_def)

lemma native_size_small: "sz \<le> 2147483647 \<Longrightarrow> native_size sz = sz"
  by (simp add: native_size_def leD)

lemma accounted_Alloc:
  assumes "accounted (s, held)" and "bucket_key raw_size \<le> 2147483647"
  shows "accounted (step rt (OpAlloc raw_size) (s, held))"
proof (cases "pool_miss (fst s) (bucket_key raw_size)")
  case True
  then have eq: "Alloc rt raw_size s =
      native_alloc rt (bucket_key raw_size) (flush_policy rt (bucket_key raw_size) s)"
    by (rule Alloc_on_miss)
  obtain res s' where r: "Alloc rt raw_size s = (res, s')"
    by (cases "Alloc rt raw_size s")
  have m: "fst s' = (if res = Fatal then fst (flush_policy rt (bucket_key raw_size) s)
      else (fst (flush_policy rt (bucket_key raw_size) s))
             \<lparr>used_memory := used_memory (fst (flush_policy rt (bucket_key raw_size) s))
                + bucket_key raw_size\<rparr>)"
    using r eq native_alloc_manager [of rt "bucket_key raw_size" "flush_policy rt (bucket_key raw_size) s"]
      assms(2)
    by (simp add: native_size_small)
  show ?thesis
    using assms(1) r m
    by (cases res) (auto simp: accounted_def flush_policy_manager)
next
  case False
  then obtain v where v: "map_of (memory_pool (fst s)) (bucket_key raw_size) = Some v" "v \<noteq> []"
    by (auto simp: pool_miss_def split: option.splits)
  obtain u j where u: "v = u @ [j]"
    using v(2) by (cases v rule: rev_cases) simp_all
  show ?thesis
    using assms(1) v(1) Alloc_on_hit [OF v, where w = "snd s" and rt = rt]
    by (cases s) (simp add: u accounted_def pooled_bytes_update algebra_simps)
qed

lemma accounted_step:
  assumes "accounted c" and "in_contract x (snd c)"
    and "\<forall>k \<in> set (alloc_sizes [x]). k \<le> 2147483647"
  shows "accounted (step rt x c)"
proof (cases c)
  case (Pair s held)
  show ?thesis
  proof (cases x)
    case (OpAlloc raw_size)
    then show ?thesis
      using assms Pair accounted_Alloc [of s held raw_size rt] by simp
  next
    case (OpFree p raw_size)
    then show ?thesis
      using assms Pair
      by (simp add: accounted_def Free_manager pooled_bytes_update held_bytes_remove1
          algebra_simps)
  next
    case (OpDirectFree p raw_size)
    then show ?thesis
      using assms Pair
      by (simp add: accounted_def DirectFree_manager held_bytes_remove1 algebra_simps)
  next
    case OpReleaseAll
    then show ?thesis
      using assms Pair by (simp add: accounted_def ReleaseAll_manager)
  qed
qed

lemma alloc_sizes_Cons_subset: "set (alloc_sizes [x]) \<union> set (alloc_sizes xs) = set (alloc_sizes (x # xs))"
  by (cases x) simp_all

lemma accounted_run:
  "accounted c \<Longrightarrow> run_in_contract rt ops c \<Longrightarrow>
   \<forall>k \<in> set (alloc_sizes ops). k \<le> 2147483647 \<Longrightarrow> accounted (run rt ops c)"
proof (induction ops arbitrary: c)
  case Nil
  then show ?case by simp
next
  case (Cons x xs)
  have "accounted (step rt x c)"
    using Cons.prems alloc_sizes_Cons_subset [of x xs]
    by (intro accounted_step) auto
  then show ?case
    using Cons.prems Cons.IH [of "step rt x c"] alloc_sizes_Cons_subset [of x xs]
    by auto
qed

lemma accounted_init: "accounted ((GPUPooledStorageManager env, w), [])"
  by (simp add: accounted_def GPUPooledStorageManager_def)

lemma unat_sum_list:
  "unat (sum_list (ws :: size_t list)) = sum_list (map unat ws) mod 2 ^ 64"
  by (induction ws) (simp_all add: unat_word_ariths mod_add_right_eq)

text \<open>
  Claim C2, as the source has it. Start from a new allocator and run any sequence of
  \<open>Alloc\<close>, \<open>Free\<close>, \<open>DirectFree\<close> and \<open>ReleaseAll\<close> calls in which callers give back
  only handles they hold, with the raw size they asked for, and every bucket key
  requested is at most 2147483647. Then the used-memory counter equals, on \<^verbatim>\<open>size_t\<close>,
  the sum of the bucket keys of the handles checked out to callers and of the handles idle
  in the pool; it equals that sum as a number whenever the sum fits 64 bits. After a
  \<open>ReleaseAll\<close> the counter is the sum over the handles still checked out, which is
  zero when none is.
\<close>

theorem used_memory_accounting:
  assumes "run_in_contract rt ops ((GPUPooledStorageManager env, w), [])"
    and "\<forall>k \<in> set (alloc_sizes ops). k \<le> 2147483647"
  shows "used_memory (fst (fst (run rt ops ((GPUPooledStorageManager env, w), [])))) =
           sum_list (outstanding_keys (run rt ops ((GPUPooledStorageManager env, w), []))) \<and>
         (sum_list (map unat (outstanding_keys (run rt ops ((GPUPooledStorageManager env, w), []))))
            < 2 ^ 64 \<longrightarrow>
          unat (used_memory (fst (fst (run rt ops ((GPUPooledStorageManager env, w), []))))) =
            sum_list (map unat (outstanding_keys (run rt ops ((GPUPooledStorageManager env, w), []))))) \<and>
         used_memory (fst (ReleaseAll rt (fst (run rt ops ((GPUPooledStorageManager env, w), []))))) =
           held_bytes (snd (run rt ops ((GPUPooledStorageManager env, w), []))) \<and>
         (snd (run rt ops ((GPUPooledStorageManager env, w), [])) = [] \<longrightarrow>
          used_memory (fst (ReleaseAll rt (fst (run rt ops ((GPUPooledStorageManager env, w), []))))) = 0)"
proof -
  let ?c = "run rt ops ((GPUPooledStorageManager env, w), [])"
  have acc: "accounted ?c"
    using accounted_init assms by (rule accounted_run)
  then have a: "used_memory (fst (fst ?c)) = sum_list (outstanding_keys ?c)"
    by (simp add: accounted_def sum_outstanding_keys)
  have b: "used_memory (fst (ReleaseAll rt (fst ?c))) = held_bytes (snd ?c)"
    using acc by (simp add: accounted_def ReleaseAll_manager)
  have c: "unat (used_memory (fst (fst ?c))) = sum_list (map unat (outstanding_keys ?c))"
    if "sum_list (map unat (outstanding_keys ?c)) < 2 ^ 64"
    using that by (simp add: a unat_sum_list)
  show ?thesis
    using a b c by simp
qed

text \<open>\<open>Alloc(64)\<close> and \<open>Free\<close> of the handle: the counter is 96 with the handle idle in
  the pool, and 0 after a \<open>ReleaseAll\<close>.\<close>

theorem used_memory_accounting_witness:
  "run_in_contract sim_runtime [OpAlloc 64, OpFree 4096 64]
     ((GPUPooledStorageManager None, sim_world 1000000 2000000), []) \<and>
   alloc_sizes [OpAlloc 64, OpFree 4096 64] = [96] \<and>
   outstanding_keys (run sim_runtime [OpAlloc 64, OpFree 4096 64]
     ((GPUPooledStorageManager None, sim_world 1000000 2000000), [])) = [96] \<and>
   snd (run sim_runtime [OpAlloc 64, OpFree 4096 64]
     ((GPUPooledStorageManager None, sim_world 1000000 2000000), [])) = [] \<and>
   used_memory (fst (fst (run sim_runtime [OpAlloc 64, OpFree 4096 64]
     ((GPUPooledStorageManager None, sim_world 1000000 2000000), [])))) = 96 \<and>
   unat (used_memory (fst (fst (run sim_runtime [OpAlloc 64, OpFree 4096 64]
     ((GPUPooledStorageManager None, sim_world 1000000 2000000), []))))) = 96 \<and>
   used_memory (fst (ReleaseAll sim_runtime (fst (run sim_runtime [OpAlloc 64, OpFree 4096 64]
     ((GPUPooledStorageManager None, sim_world 1000000 2000000), []))))) = 0"
proof -
  have a: "run_in_contract sim_runtime [OpAlloc 64, OpFree 4096 64]
     ((GPUPooledStorageManager None, sim_world 1000000 2000000), [])"
    by (simp add: alloc_simps sim_simps)
  have b: "\<forall>k \<in> set (alloc_sizes [OpAlloc 64, OpFree 4096 64]). k \<le> 2147483647"
    by (simp add: bucket_key_def NDEV_def)
  show ?thesis
    using a used_memory_accounting [OF a b]
    by (simp add: alloc_simps sim_simps outstanding_keys_def pooled_def)
qed

text \<open>
  Claim C2, as the specification states it, has the counter at zero after every
  \<open>ReleaseAll\<close>. It is not while a handle is checked out: after \<open>Alloc(64)\<close> and
  \<open>ReleaseAll\<close> the counter is 96 and the caller holds the handle.
\<close>

theorem used_memory_after_ReleaseAll_nonzero:
  "run sim_runtime [OpAlloc 64, OpReleaseAll]
     ((GPUPooledStorageManager None, sim_world 1000000 2000000), []) =
   ((\<lparr>used_memory = 96, reserve = 5, memory_pool = []\<rparr>,
     \<lparr>device = \<lparr>sim_free = 999904, sim_total = 2000000, sim_next = 4192,
                 sim_blocks = [(4096, 96)]\<rparr>,
      calls = [CallMemGetInfo, CallMalloc 96]\<rparr>),
    [(4096, 64)])"
  by (simp add: alloc_simps sim_simps)

subsection \<open>Reuse from the pool\<close>

lemma bucket_Free_same:
  "\<exists>v. bucket (fst (Free p S s)) (bucket_key S) = Some (v @ [p])"
  by (simp add: bucket_def Free_manager update_conv')

lemma bucket_Free_other:
  "raw_size \<noteq> S \<Longrightarrow>
   bucket (fst (Free q raw_size s)) (bucket_key S) = bucket (fst s) (bucket_key S)"
  by (simp add: bucket_def Free_manager update_conv')

lemma bucket_DirectFree:
  "bucket (fst (DirectFree rt q raw_size s)) k = bucket (fst s) k"
  by (simp add: bucket_def DirectFree_manager)

lemma native_alloc_pool:
  "memory_pool (fst (snd (native_alloc rt sz s2))) = memory_pool (fst s2)"
  by (simp add: native_alloc_manager)

lemma bucket_Alloc_other:
  assumes "raw_size \<noteq> S" and "\<not> Alloc_flushes rt raw_size s"
  shows "bucket (fst (snd (Alloc rt raw_size s))) (bucket_key S) = bucket (fst s) (bucket_key S)"
proof (cases "pool_miss (fst s) (bucket_key raw_size)")
  case True
  with assms(2) have "\<not> flush_decision rt (bucket_key raw_size) s"
    by (simp add: Alloc_flushes_def)
  then show ?thesis
    using True by (simp add: Alloc_on_miss bucket_def native_alloc_pool flush_policy_manager)
next
  case False
  then obtain v where v: "map_of (memory_pool (fst s)) (bucket_key raw_size) = Some v" "v \<noteq> []"
    by (auto simp: pool_miss_def split: option.splits)
  show ?thesis
    using assms(1) Alloc_on_hit [OF v, where w = "snd s" and rt = rt]
    by (cases s) (simp add: bucket_def update_conv')
qed

lemma step_Alloc_state: "fst (step rt (OpAlloc raw_size) (s, held)) = snd (Alloc rt raw_size s)"
  by (simp split: prod.splits alloc_result.splits)

lemma bucket_step:
  "keeps_bucket rt S x (fst c) \<Longrightarrow>
   bucket (fst (fst (step rt x c))) (bucket_key S) = bucket (fst (fst c)) (bucket_key S)"
proof (cases c)
  case (Pair s held)
  assume k: "keeps_bucket rt S x (fst c)"
  show ?thesis
  proof (cases x)
    case (OpAlloc raw_size)
    then have "bucket (fst (snd (Alloc rt raw_size s))) (bucket_key S) = bucket (fst s) (bucket_key S)"
      using k Pair by (simp add: bucket_Alloc_other)
    then show ?thesis
      using OpAlloc Pair by (simp only: step_Alloc_state fst_conv)
  next
    case (OpFree q raw_size)
    then show ?thesis using k Pair by (simp add: bucket_Free_other)
  next
    case (OpDirectFree q raw_size)
    then show ?thesis using k Pair by (simp add: bucket_DirectFree)
  next
    case OpReleaseAll
    then show ?thesis using k by simp
  qed
qed

lemma bucket_run:
  "run_keeps_bucket rt S ops c \<Longrightarrow>
   bucket (fst (fst (run rt ops c))) (bucket_key S) = bucket (fst (fst c)) (bucket_key S)"
  by (induction ops arbitrary: c) (simp_all add: bucket_step)

lemma Alloc_top:
  assumes "bucket (fst s) (bucket_key S) = Some (v @ [p])"
  shows "fst (Alloc rt S s) = Returned p \<and> snd (snd (Alloc rt S s)) = snd s \<and>
         used_memory (fst (snd (Alloc rt S s))) = used_memory (fst s) \<and>
         bucket (fst (snd (Alloc rt S s))) (bucket_key S) = Some v"
proof -
  have a: "map_of (memory_pool (fst s)) (bucket_key S) = Some (v @ [p])" and b: "v @ [p] \<noteq> []"
    using assms by (simp_all add: bucket_def)
  show ?thesis
    using Alloc_on_hit [OF a b, where w = "snd s" and rt = rt]
    by (cases s) (simp add: bucket_def update_conv')
qed

text \<open>
  Claim C4. Let \<open>Free(p, S)\<close> push the handle \<open>p\<close>, and let any calls follow that keep
  the bucket of \<open>S\<close>: no \<open>ReleaseAll\<close> (called directly or by an \<open>Alloc\<close>), no
  \<open>Alloc\<close> and no further \<open>Free\<close> of the size \<open>S\<close>. Then the next \<open>Alloc(S)\<close> returns
  exactly \<open>p\<close>, leaves the device and the call log as they were (no runtime call), and
  leaves the used-memory counter unchanged.
\<close>

theorem Alloc_reuses_last_freed:
  assumes "run_keeps_bucket rt S ops (Free p S s, held)"
  shows "fst (Alloc rt S (fst (run rt ops (Free p S s, held)))) = Returned p \<and>
         snd (snd (Alloc rt S (fst (run rt ops (Free p S s, held))))) =
           snd (fst (run rt ops (Free p S s, held))) \<and>
         used_memory (fst (snd (Alloc rt S (fst (run rt ops (Free p S s, held)))))) =
           used_memory (fst (fst (run rt ops (Free p S s, held))))"
proof -
  obtain v where "bucket (fst (Free p S s)) (bucket_key S) = Some (v @ [p])"
    using bucket_Free_same by blast
  then have "bucket (fst (fst (run rt ops (Free p S s, held)))) (bucket_key S) = Some (v @ [p])"
    using bucket_run [OF assms] by simp
  then show ?thesis
    using Alloc_top [of "fst (run rt ops (Free p S s, held))" S v p rt] by simp
qed

text \<open>After \<open>Alloc(64)\<close> the handle 4096 is freed; an \<open>Alloc(100)\<close> that misses without
  a flush and the \<open>Free\<close> of its handle follow; the next \<open>Alloc(64)\<close> returns 4096.\<close>

theorem Alloc_reuses_last_freed_witness:
  "run_keeps_bucket sim_runtime 64 [OpAlloc 100, OpFree 4192 100]
     (Free 4096 64
        (\<lparr>used_memory = 96, reserve = 5, memory_pool = []\<rparr>,
         \<lparr>device = \<lparr>sim_free = 999904, sim_total = 2000000, sim_next = 4192,
                     sim_blocks = [(4096, 96)]\<rparr>,
          calls = [CallMemGetInfo, CallMalloc 96]\<rparr>), []) \<and>
   fst (Alloc sim_runtime 64 (fst (run sim_runtime [OpAlloc 100, OpFree 4192 100]
     (Free 4096 64
        (\<lparr>used_memory = 96, reserve = 5, memory_pool = []\<rparr>,
         \<lparr>device = \<lparr>sim_free = 999904, sim_total = 2000000, sim_next = 4192,
                     sim_blocks = [(4096, 96)]\<rparr>,
          calls = [CallMemGetInfo, CallMalloc 96]\<rparr>), [])))) = Returned 4096"
proof -
  have a: "run_keeps_bucket sim_runtime 64 [OpAlloc 100, OpFree 4192 100]
     (Free 4096 64
        (\<lparr>used_memory = 96, reserve = 5, memory_pool = []\<rparr>,
         \<lparr>device = \<lparr>sim_free = 999904, sim_total = 2000000, sim_next = 4192,
                     sim_blocks = [(4096, 96)]\<rparr>,
          calls = [CallMemGetInfo, CallMalloc 96]\<rparr>), [])"
    by (simp add: Alloc_flushes_def flush_decision_def alloc_simps sim_simps)
  show ?thesis
    using a Alloc_reuses_last_freed [OF a, THEN conjunct1] by simp
qed

subsection \<open>No reuse across buckets\<close>

text \<open>
  Claim C5. The bucket key is a function of the raw size, and different raw sizes have
  different keys. When the keys of \<open>S1\<close> and \<open>S2\<close> differ, \<open>Free(h, S2)\<close> leaves the
  bucket of \<open>S1\<close> as it was, so \<open>Alloc(S1)\<close> after it misses exactly when it would have
  missed before. If it misses, its result is the native allocation after the flush
  policy; if it hits, it returns the last handle of the bucket of \<open>S1\<close>, the same
  handle it would have returned without the \<open>Free\<close>, and it leaves the bucket of \<open>S2\<close>,
  with \<open>h\<close> in it, untouched.
\<close>

theorem exact_match_reuse:
  "(bucket_key S1 = bucket_key S2 \<longleftrightarrow> S1 = S2) \<and>
   (bucket_key S1 \<noteq> bucket_key S2 \<longrightarrow>
      bucket (fst (Free h S2 s)) (bucket_key S1) = bucket (fst s) (bucket_key S1) \<and>
      pool_miss (fst (Free h S2 s)) (bucket_key S1) = pool_miss (fst s) (bucket_key S1) \<and>
      (pool_miss (fst s) (bucket_key S1) \<longrightarrow>
         Alloc rt S1 (Free h S2 s) =
           native_alloc rt (bucket_key S1) (flush_policy rt (bucket_key S1) (Free h S2 s))) \<and>
      (\<not> pool_miss (fst s) (bucket_key S1) \<longrightarrow>
         (\<exists>v. bucket (fst s) (bucket_key S1) = Some v \<and> v \<noteq> [] \<and>
              fst (Alloc rt S1 (Free h S2 s)) = Returned (last v)) \<and>
         fst (Alloc rt S1 (Free h S2 s)) = fst (Alloc rt S1 s) \<and>
         bucket (fst (snd (Alloc rt S1 (Free h S2 s)))) (bucket_key S2) =
           bucket (fst (Free h S2 s)) (bucket_key S2)))"
proof -
  have "?thesis" if ne: "bucket_key S1 \<noteq> bucket_key S2"
  proof -
    have S: "S2 \<noteq> S1" using ne by auto
    have b: "bucket (fst (Free h S2 s)) (bucket_key S1) = bucket (fst s) (bucket_key S1)"
      using S by (rule bucket_Free_other)
    then have pm: "pool_miss (fst (Free h S2 s)) (bucket_key S1) = pool_miss (fst s) (bucket_key S1)"
      by (simp add: pool_miss_def bucket_def)
    have miss: "Alloc rt S1 (Free h S2 s) =
           native_alloc rt (bucket_key S1) (flush_policy rt (bucket_key S1) (Free h S2 s))"
      if "pool_miss (fst s) (bucket_key S1)"
      using that pm by (simp add: Alloc_on_miss)
    have hit: "(\<exists>v. bucket (fst s) (bucket_key S1) = Some v \<and> v \<noteq> [] \<and>
              fst (Alloc rt S1 (Free h S2 s)) = Returned (last v)) \<and>
         fst (Alloc rt S1 (Free h S2 s)) = fst (Alloc rt S1 s) \<and>
         bucket (fst (snd (Alloc rt S1 (Free h S2 s)))) (bucket_key S2) =
           bucket (fst (Free h S2 s)) (bucket_key S2)"
      if "\<not> pool_miss (fst s) (bucket_key S1)"
    proof -
      from that obtain v where v: "map_of (memory_pool (fst s)) (bucket_key S1) = Some v" "v \<noteq> []"
        by (auto simp: pool_miss_def split: option.splits)
      have v': "map_of (memory_pool (fst (Free h S2 s))) (bucket_key S1) = Some v"
        using b v(1) by (simp add: bucket_def)
      have 1: "Alloc rt S1 s = (Returned (last v),
          ((fst s)\<lparr>memory_pool := AList.update (bucket_key S1) (butlast v) (memory_pool (fst s))\<rparr>, snd s))"
        using Alloc_on_hit [OF v, where w = "snd s" and rt = rt] by simp
      have 2: "Alloc rt S1 (Free h S2 s) = (Returned (last v),
          ((fst (Free h S2 s))\<lparr>memory_pool :=
              AList.update (bucket_key S1) (butlast v) (memory_pool (fst (Free h S2 s)))\<rparr>,
           snd (Free h S2 s)))"
        using Alloc_on_hit [OF v' v(2), where w = "snd (Free h S2 s)" and rt = rt] by simp
      show ?thesis
        using v ne by (simp add: 1 2 bucket_def update_conv')
    qed
    show ?thesis
      using ne b pm miss hit by blast
  qed
  then show ?thesis by auto
qed

text \<open>With the handle 4096 idle under the key 96, \<open>Free(4192, 100)\<close> and then
  \<open>Alloc(64)\<close>: the result is 4096, and 4192 stays under the key 132. With an empty pool,
  \<open>Free(8192, 100)\<close> and then \<open>Alloc(64)\<close>: the result is the device's new block.\<close>

theorem exact_match_reuse_witness:
  "bucket_key 64 \<noteq> bucket_key 100 \<and>
   \<not> pool_miss (fst (\<lparr>used_memory = 228, reserve = 5, memory_pool = [(96, [4096])]\<rparr>,
                     sim_world 1000000 2000000)) (bucket_key 64) \<and>
   fst (Alloc sim_runtime 64 (Free 4192 100
     (\<lparr>used_memory = 228, reserve = 5, memory_pool = [(96, [4096])]\<rparr>,
      sim_world 1000000 2000000))) = Returned 4096 \<and>
   bucket (fst (snd (Alloc sim_runtime 64 (Free 4192 100
     (\<lparr>used_memory = 228, reserve = 5, memory_pool = [(96, [4096])]\<rparr>,
      sim_world 1000000 2000000))))) (bucket_key 100) = Some [4192] \<and>
   pool_miss (fst (GPUPooledStorageManager None, sim_world 1000000 2000000)) (bucket_key 64) \<and>
   Alloc sim_runtime 64 (Free 8192 100 (GPUPooledStorageManager None, sim_world 1000000 2000000)) =
     (Returned 4096,
      (\<lparr>used_memory = 96, reserve = 5, memory_pool = [(132, [8192])]\<rparr>,
       \<lparr>device = \<lparr>sim_free = 999904, sim_total = 2000000, sim_next = 4192,
                   sim_blocks = [(4096, 96)]\<rparr>,
        calls = [CallMemGetInfo, CallMalloc 96]\<rparr>))"
  using exact_match_reuse
      [of 64 100 4192 "(\<lparr>used_memory = 228, reserve = 5, memory_pool = [(96, [4096])]\<rparr>,
                        sim_world 1000000 2000000)" sim_runtime]
    exact_match_reuse
      [of 64 100 8192 "(GPUPooledStorageManager None, sim_world 1000000 2000000)" sim_runtime]
  by (simp add: bucket_def alloc_simps sim_simps)

end
